theory Spec2Isabelle
  imports Complex_Main "HOL-Library.Word" "HOL-Library.Signed_Division" "HOL-Library.AList"
    "HOL-Library.Sublist"
begin

unbundle bit_operations_syntax

section \<open>Strings\<close>

text \<open>
  JavaScript strings are modelled as \<open>string\<close>; a \<open>char\<close> stands for one code unit
  in the range 0..255.  The four characters below cannot be written inside a literal.
\<close>

definition ESC :: char where "ESC = CHR 0x1B"
definition NL :: char where "NL = CHR 0x0A"
definition DQ :: char where "DQ = CHR 0x22"
definition BS :: char where "BS = CHR 0x5C"

definition charCode :: "char \<Rightarrow> nat" where
  "charCode c = of_char c"

text \<open>\<open>String.prototype.toLowerCase\<close> and \<open>toUpperCase\<close>, on the code units 0..255
  that map into that range again.\<close>

definition lower_char :: "char \<Rightarrow> char" where
  "lower_char c =
     (let n = charCode c
      in if (65 \<le> n \<and> n \<le> 90) \<or> (192 \<le> n \<and> n \<le> 222 \<and> n \<noteq> 215)
         then char_of (n + 32) else c)"

definition toLowerCase :: "string \<Rightarrow> string" where
  "toLowerCase s = map lower_char s"

definition upper_char :: "char \<Rightarrow> char" where
  "upper_char c =
     (let n = charCode c
      in if (97 \<le> n \<and> n \<le> 122) \<or> (224 \<le> n \<and> n \<le> 254 \<and> n \<noteq> 247)
         then char_of (n - 32) else c)"

definition toUpperCase :: "string \<Rightarrow> string" where
  "toUpperCase s = map upper_char s"

definition padStart :: "nat \<Rightarrow> char \<Rightarrow> string \<Rightarrow> string" where
  "padStart n c s = replicate (n - length s) c @ s"

definition padEnd :: "nat \<Rightarrow> char \<Rightarrow> string \<Rightarrow> string" where
  "padEnd n c s = s @ replicate (n - length s) c"

definition digit_char :: "nat \<Rightarrow> char" where
  "digit_char d = char_of (48 + d)"

fun nat_toString :: "nat \<Rightarrow> string" where
  "nat_toString n =
     (if n < 10 then [digit_char n] else nat_toString (n div 10) @ [digit_char (n mod 10)])"

declare nat_toString.simps [simp del]

definition int_toString :: "int \<Rightarrow> string" where
  "int_toString i = (if i < 0 then CHR ''-'' # nat_toString (nat (- i)) else nat_toString (nat i))"

section \<open>Level filter\<close>

datatype LogLevel = Debug | Info | Warn | Error

fun level_name :: "LogLevel \<Rightarrow> string" where
  "level_name Debug = ''debug''"
| "level_name Info = ''info''"
| "level_name Warn = ''warn''"
| "level_name Error = ''error''"

text \<open>
  \<open>LEVEL_VALUES\<close> is an object literal, so \<open>LEVEL_VALUES[k]\<close> finds the four own
  properties and, for any other key, whatever \<open>Object.prototype\<close> has under that name:
  a function for each of its methods, the prototype object itself for \<open>__proto__\<close>,
  and \<open>undefined\<close> otherwise.
\<close>

datatype level_entry = LevelNumber nat | InheritedFunction | InheritedObject | Undefined

definition LEVEL_VALUES :: "(string \<times> nat) list" where
  "LEVEL_VALUES = [(''debug'', 0), (''info'', 1), (''warn'', 2), (''error'', 3)]"

definition Object_prototype_methods :: "string list" where
  "Object_prototype_methods =
     [''constructor'', ''__defineGetter__'', ''__defineSetter__'', ''hasOwnProperty'',
      ''__lookupGetter__'', ''__lookupSetter__'', ''isPrototypeOf'', ''propertyIsEnumerable'',
      ''toString'', ''valueOf'', ''toLocaleString'']"

definition LEVEL_VALUES_get :: "string \<Rightarrow> level_entry" where
  "LEVEL_VALUES_get k =
     (case map_of LEVEL_VALUES k of
        Some n \<Rightarrow> LevelNumber n
      | None \<Rightarrow>
          if k = ''__proto__'' then InheritedObject
          else if k \<in> set Object_prototype_methods then InheritedFunction
          else Undefined)"

text \<open>The environment variable \<open>LOG_LEVEL\<close> is absent (\<open>None\<close>) or a string.\<close>

definition getLogLevel :: "string option \<Rightarrow> string" where
  "getLogLevel env =
     (let level = toLowerCase (case env of None \<Rightarrow> ''info'' | Some s \<Rightarrow> if s = [] then ''info'' else s)
      in if LEVEL_VALUES_get level \<noteq> Undefined then level else ''info'')"

text \<open>
  \<open>a >= b\<close> on two table entries: numbers compare as numbers; a function, an object and
  \<open>undefined\<close> convert to NaN, and every comparison with NaN is false.
\<close>

fun js_ge :: "level_entry \<Rightarrow> level_entry \<Rightarrow> bool" where
  "js_ge (LevelNumber a) (LevelNumber b) = (b \<le> a)"
| "js_ge _ _ = False"

definition shouldLog :: "string option \<Rightarrow> LogLevel \<Rightarrow> bool" where
  "shouldLog env level =
     js_ge (LEVEL_VALUES_get (level_name level)) (LEVEL_VALUES_get (getLogLevel env))"

fun ordinal :: "LogLevel \<Rightarrow> nat" where
  "ordinal Debug = 0"
| "ordinal Info = 1"
| "ordinal Warn = 2"
| "ordinal Error = 3"

section \<open>Module colour\<close>

text \<open>
  \<open>hash << 5\<close> converts \<open>hash\<close> to a 32-bit integer, shifts it and reads the result
  as signed; the subtraction and the addition around it are on numbers and do not wrap.
  \<open>%\<close> truncates towards zero.
\<close>

definition shl5 :: "int \<Rightarrow> int" where
  "shl5 h = sint (push_bit 5 (word_of_int h :: 32 word))"

definition hash_step :: "int \<Rightarrow> char \<Rightarrow> int" where
  "hash_step h c = int (charCode c) + (shl5 h - h)"

definition getModuleColor :: "string \<Rightarrow> int" where
  "getModuleColor moduleName = \<bar>foldl hash_step 0 moduleName smod 360\<bar>"

section \<open>Values and the heap\<close>

text \<open>
  A value is a primitive or a reference to an object of the heap.  A finite number is
  the rational it denotes (the two zeros are one value here: both are falsy and both
  print as \<open>0\<close>); the other numbers are \<open>NaN\<close> and the two infinities.
\<close>

datatype jsval =
    JUndefined | JNull | JBool bool | JNum rat | JNaN | JInfinity | JNegInfinity
  | JBigInt int | JStr string | JFun | JRef nat

type_synonym props = "(string \<times> jsval) list"

text \<open>
  What is thrown: the type errors of the language itself, and what a trap of a proxy
  throws, an \<open>Error\<close> with a message or a symbol.
\<close>

datatype exception =
    BigInt_TypeError | Circular_TypeError | Symbol_TypeError | Thrown_Error string | Thrown_Symbol

text \<open>
  An object is a plain object with its own enumerable properties in enumeration order,
  an array, an \<open>Error\<close> with its \<open>stack\<close> (absent or a string), its \<open>message\<close> and its
  own enumerable properties, or a proxy \<open>new Proxy({}, { ownKeys() { throw e } })\<close>:
  listing its keys throws \<open>e\<close>, in everything else it is the empty object it wraps.
\<close>

datatype jsobj =
    Obj props | Arr "jsval list" | ErrorObj "string option" string props | ThrowingProxy exception

type_synonym heap = "jsobj list"

text \<open>A call returns, throws, or is cut off because the fuel of the model ran out.\<close>

datatype 'a completion = Normal 'a | Throw exception | OutOfFuel

definition map_completion :: "('a \<Rightarrow> 'b) \<Rightarrow> 'a completion \<Rightarrow> 'b completion" where
  "map_completion f c = (case c of Normal x \<Rightarrow> Normal (f x) | Throw e \<Rightarrow> Throw e | OutOfFuel \<Rightarrow> OutOfFuel)"

text \<open>A reference outside the heap does not arise in a program; \<open>deref\<close> gives \<open>None\<close> there.\<close>

definition deref :: "heap \<Rightarrow> nat \<Rightarrow> jsobj option" where
  "deref h a = (if a < length h then Some (h ! a) else None)"

definition alloc :: "heap \<Rightarrow> jsobj \<Rightarrow> heap \<times> jsval" where
  "alloc h ob = (h @ [ob], JRef (length h))"

fun truthy :: "jsval \<Rightarrow> bool" where
  "truthy JUndefined = False"
| "truthy JNull = False"
| "truthy (JBool b) = b"
| "truthy (JNum r) = (r \<noteq> 0)"
| "truthy JNaN = False"
| "truthy JInfinity = True"
| "truthy JNegInfinity = True"
| "truthy (JBigInt i) = (i \<noteq> 0)"
| "truthy (JStr s) = (s \<noteq> [])"
| "truthy JFun = True"
| "truthy (JRef a) = True"

subsection \<open>Own properties and their order\<close>

text \<open>
  The keys of an object are listed with the array indices first, in ascending order,
  and the other keys after them in the order of their creation.  An array index is the
  canonical numeral of an integer below \<open>2^32 - 1\<close>.
\<close>

definition is_digit :: "char \<Rightarrow> bool" where
  "is_digit c = (48 \<le> charCode c \<and> charCode c \<le> 57)"

definition digits_value :: "string \<Rightarrow> int" where
  "digits_value k = foldl (\<lambda>n c. 10 * n + (of_char c - 48)) 0 k"

definition array_index :: "string \<Rightarrow> int option" where
  "array_index k =
     (if k \<noteq> [] \<and> list_all is_digit k \<and> (length k = 1 \<or> take 1 k \<noteq> ''0'')
         \<and> length k \<le> 10 \<and> digits_value k < 4294967295
      then Some (digits_value k) else None)"

fun insert_index :: "int \<Rightarrow> string \<Rightarrow> jsval \<Rightarrow> props \<Rightarrow> props" where
  "insert_index i k v [] = [(k, v)]"
| "insert_index i k v (p # ps) =
     (case array_index (fst p) of
        Some j \<Rightarrow> if j < i then p # insert_index i k v ps else (k, v) # p # ps
      | None \<Rightarrow> (k, v) # p # ps)"

text \<open>Writing a property: a key the object has keeps its place, a new one takes the
  place the order above gives it.\<close>

definition define_property :: "string \<Rightarrow> jsval \<Rightarrow> props \<Rightarrow> props" where
  "define_property k v ps =
     (if map_of ps k \<noteq> None then AList.update k v ps
      else (case array_index k of
              Some i \<Rightarrow> insert_index i k v ps
            | None \<Rightarrow> ps @ [(k, v)]))"

text \<open>The spread \<open>{ ...base, ...over }\<close>: the properties of \<open>over\<close> are written onto a
  copy of \<open>base\<close>, in their order.\<close>

definition spread :: "props \<Rightarrow> props \<Rightarrow> props" where
  "spread base over = foldl (\<lambda>acc p. define_property (fst p) (snd p) acc) base over"

definition index_keys :: "nat \<Rightarrow> string list" where
  "index_keys n = map nat_toString [0..<n]"

text \<open>The own enumerable string-keyed properties of an object; for the proxy,
  listing them throws.\<close>

definition own_entries_of :: "jsobj \<Rightarrow> props completion" where
  "own_entries_of ob =
     (case ob of
        Obj ps \<Rightarrow> Normal ps
      | Arr xs \<Rightarrow> Normal (zip (index_keys (length xs)) xs)
      | ErrorObj st m ps \<Rightarrow> Normal ps
      | ThrowingProxy e \<Rightarrow> Throw e)"

text \<open>The same for a value, as \<open>Object.keys\<close> and the spread \<open>{...v}\<close> see them (a
  string has one property per code unit, the other primitives have none).\<close>

definition own_entries :: "heap \<Rightarrow> jsval \<Rightarrow> props completion" where
  "own_entries h v =
     (case v of
        JStr s \<Rightarrow> Normal (zip (index_keys (length s)) (map (\<lambda>c. JStr [c]) s))
      | JRef a \<Rightarrow> (case deref h a of Some ob \<Rightarrow> own_entries_of ob | None \<Rightarrow> Normal [])
      | _ \<Rightarrow> Normal [])"

definition Object_keys :: "heap \<Rightarrow> jsval \<Rightarrow> string list completion" where
  "Object_keys h v = map_completion (map fst) (own_entries h v)"

text \<open>\<open>v instanceof Error\<close>.\<close>

definition instanceof_Error :: "heap \<Rightarrow> jsval \<Rightarrow> bool" where
  "instanceof_Error h v =
     (case v of
        JRef a \<Rightarrow> (case deref h a of Some (ErrorObj st m ps) \<Rightarrow> True | _ \<Rightarrow> False)
      | _ \<Rightarrow> False)"

text \<open>\<open>v.error\<close>: the own property of that name, or \<open>undefined\<close>.\<close>

definition get_error :: "heap \<Rightarrow> jsval \<Rightarrow> jsval" where
  "get_error h v =
     (case v of
        JRef a \<Rightarrow>
          (case deref h a of
             Some (Obj ps) \<Rightarrow> (case map_of ps ''error'' of Some x \<Rightarrow> x | None \<Rightarrow> JUndefined)
           | Some (ErrorObj st m ps) \<Rightarrow> (case map_of ps ''error'' of Some x \<Rightarrow> x | None \<Rightarrow> JUndefined)
           | _ \<Rightarrow> JUndefined)
      | _ \<Rightarrow> JUndefined)"

text \<open>\<open>e.stack || e.message\<close> for an \<open>Error\<close> \<open>e\<close>.\<close>

definition stack_or_message :: "heap \<Rightarrow> jsval \<Rightarrow> string" where
  "stack_or_message h v =
     (case v of
        JRef a \<Rightarrow>
          (case deref h a of
             Some (ErrorObj st m ps) \<Rightarrow>
               (case st of None \<Rightarrow> m | Some s \<Rightarrow> if s = [] then m else s)
           | _ \<Rightarrow> [])
      | _ \<Rightarrow> [])"

subsection \<open>Conversion to a string\<close>

text \<open>
  What the model takes from its host: \<open>wave d\<close> stands for the floating-point
  expression \<open>Math.round(127 + 127 * Math.sin(d * Math.PI / 180))\<close>, \<open>number_text\<close> is
  the text of a number that is not an integer of magnitude up to \<open>2^53\<close>, and
  \<open>object_toString\<close> is the text that the \<open>toString\<close> method of an object or of a
  function returns.
\<close>

record host =
  wave :: "int \<Rightarrow> int"
  number_text :: "rat \<Rightarrow> string"
  object_toString :: "jsval \<Rightarrow> string"

definition Number_toString :: "host \<Rightarrow> rat \<Rightarrow> string" where
  "Number_toString host r =
     (if r = of_int \<lfloor>r\<rfloor> \<and> \<bar>r\<bar> \<le> 9007199254740992 then int_toString \<lfloor>r\<rfloor>
      else number_text host r)"

text \<open>The conversion a template literal applies to a value.\<close>

definition ToString :: "host \<Rightarrow> jsval \<Rightarrow> string" where
  "ToString host v =
     (case v of
        JUndefined \<Rightarrow> ''undefined''
      | JNull \<Rightarrow> ''null''
      | JBool b \<Rightarrow> (if b then ''true'' else ''false'')
      | JNum r \<Rightarrow> Number_toString host r
      | JNaN \<Rightarrow> ''NaN''
      | JInfinity \<Rightarrow> ''Infinity''
      | JNegInfinity \<Rightarrow> ''-Infinity''
      | JBigInt i \<Rightarrow> int_toString i
      | JStr s \<Rightarrow> s
      | _ \<Rightarrow> object_toString host v)"

text \<open>The same conversion for what was thrown; a symbol cannot be converted.\<close>

definition error_toString :: "exception \<Rightarrow> string completion" where
  "error_toString e =
     (case e of
        BigInt_TypeError \<Rightarrow> Normal ''TypeError: Do not know how to serialize a BigInt''
      | Circular_TypeError \<Rightarrow> Normal ''TypeError: Converting circular structure to JSON''
      | Symbol_TypeError \<Rightarrow> Normal ''TypeError: Cannot convert a Symbol value to a string''
      | Thrown_Error m \<Rightarrow> Normal (if m = [] then ''Error'' else ''Error: '' @ m)
      | Thrown_Symbol \<Rightarrow> Throw Symbol_TypeError)"

section \<open>JSON.stringify with the replacer of formatDebugObject\<close>

definition hex_char :: "nat \<Rightarrow> char" where
  "hex_char d = (if d < 10 then char_of (48 + d) else char_of (87 + d))"

definition quote_char :: "char \<Rightarrow> string" where
  "quote_char c =
     (let n = charCode c
      in if n = 8 then [BS, CHR ''b'']
         else if n = 9 then [BS, CHR ''t'']
         else if n = 10 then [BS, CHR ''n'']
         else if n = 12 then [BS, CHR ''f'']
         else if n = 13 then [BS, CHR ''r'']
         else if n = 34 then [BS, DQ]
         else if n = 92 then [BS, BS]
         else if n < 32 then BS # ''u00'' @ [hex_char (n div 16), hex_char (n mod 16)]
         else [c])"

definition QuoteJSONString :: "string \<Rightarrow> string" where
  "QuoteJSONString s = DQ # concat (map quote_char s) @ [DQ]"

fun join :: "string \<Rightarrow> string list \<Rightarrow> string" where
  "join sep [] = []"
| "join sep [x] = x"
| "join sep (x # y # ys) = x @ sep @ join sep (y # ys)"

definition gap :: string where
  "gap = ''  ''"

definition wrap_text :: "char \<Rightarrow> char \<Rightarrow> string \<Rightarrow> string list \<Rightarrow> string" where
  "wrap_text left right stepback partial =
     (if partial = [] then [left, right]
      else left # NL # (stepback @ gap) @ join (CHR '','' # NL # (stepback @ gap)) partial
             @ NL # stepback @ [right])"

text \<open>
  The replacer: \<open>seen\<close> is the WeakSet of the enclosing call; an object already in it
  becomes the string \<open>[Circular]\<close>, any other object is added.
\<close>

definition replacer :: "nat set \<Rightarrow> jsval \<Rightarrow> jsval \<times> nat set" where
  "replacer seen v =
     (case v of
        JRef a \<Rightarrow> if a \<in> seen then (JStr ''[Circular]'', seen) else (v, insert a seen)
      | _ \<Rightarrow> (v, seen))"

text \<open>What the standard's \<open>SerializeJSONProperty\<close> gives for a value that is not an
  object (\<open>None\<close> is \<open>undefined\<close>).\<close>

definition primitive_text :: "host \<Rightarrow> jsval \<Rightarrow> (string option) completion" where
  "primitive_text host v =
     (case v of
        JNull \<Rightarrow> Normal (Some ''null'')
      | JBool b \<Rightarrow> Normal (Some (if b then ''true'' else ''false''))
      | JStr s \<Rightarrow> Normal (Some (QuoteJSONString s))
      | JNum r \<Rightarrow> Normal (Some (Number_toString host r))
      | JNaN \<Rightarrow> Normal (Some ''null'')
      | JInfinity \<Rightarrow> Normal (Some ''null'')
      | JNegInfinity \<Rightarrow> Normal (Some ''null'')
      | JBigInt i \<Rightarrow> Throw BigInt_TypeError
      | _ \<Rightarrow> Normal None)"

text \<open>\<open>SerializeJSONObject\<close> and \<open>SerializeJSONArray\<close> after their properties have been
  rendered: a property rendered as \<open>undefined\<close> is left out of an object and is
  \<open>null\<close> in an array.\<close>

fun members :: "string list \<Rightarrow> string option list \<Rightarrow> string list" where
  "members (k # ks) (Some s # rs) = (QuoteJSONString k @ '': '' @ s) # members ks rs"
| "members (k # ks) (None # rs) = members ks rs"
| "members _ _ = []"

definition elements :: "string option list \<Rightarrow> string list" where
  "elements rs = map (\<lambda>r. case r of None \<Rightarrow> ''null'' | Some s \<Rightarrow> s) rs"

definition assemble :: "string \<Rightarrow> jsobj \<Rightarrow> string list \<Rightarrow> string option list \<Rightarrow> string" where
  "assemble stepback ob keys rs =
     (case ob of
        Arr xs \<Rightarrow> wrap_text (CHR ''['') (CHR '']'') stepback (elements rs)
      | _ \<Rightarrow> wrap_text (CHR ''{'') (CHR ''}'') stepback (members keys rs))"

text \<open>
  The serializer of the language standard, with indentation: \<open>SerializeJSONProperty\<close>
  passes the value through the replacer and renders it; an object is rendered from its
  properties, in order, each through \<open>SerializeJSONProperty\<close> again.  \<open>stack\<close> is the
  standard's own list of the objects being rendered.  Entering an object costs one
  unit of fuel.
\<close>

fun SerializeJSONProperty ::
      "host \<Rightarrow> nat \<Rightarrow> heap \<Rightarrow> nat set \<Rightarrow> nat list \<Rightarrow> string \<Rightarrow> jsval
         \<Rightarrow> (string option \<times> nat set) completion"
  and SerializeJSONProperties ::
      "host \<Rightarrow> nat \<Rightarrow> heap \<Rightarrow> nat set \<Rightarrow> nat list \<Rightarrow> string \<Rightarrow> jsval list
         \<Rightarrow> (string option list \<times> nat set) completion"
where
  "SerializeJSONProperty host 0 h seen stack indent v = OutOfFuel"
| "SerializeJSONProperty host (Suc n) h seen stack indent v =
     (case replacer seen v of (value, seen1) \<Rightarrow>
        (case value of
           JRef a \<Rightarrow>
             (case deref h a of
                None \<Rightarrow> Normal (None, seen1)
              | Some ob \<Rightarrow>
                  if a \<in> set stack then Throw Circular_TypeError
                  else (case own_entries_of ob of
                          Normal ps \<Rightarrow>
                            map_completion (\<lambda>(rs, seen2). (Some (assemble indent ob (map fst ps) rs), seen2))
                              (SerializeJSONProperties host n h seen1 (a # stack) (indent @ gap) (map snd ps))
                        | Throw e \<Rightarrow> Throw e
                        | OutOfFuel \<Rightarrow> OutOfFuel))
         | _ \<Rightarrow> map_completion (\<lambda>r. (r, seen1)) (primitive_text host value)))"
| "SerializeJSONProperties host n h seen stack indent [] = Normal ([], seen)"
| "SerializeJSONProperties host n h seen stack indent (v # vs) =
     (case SerializeJSONProperty host n h seen stack indent v of
        Normal (r, seen1) \<Rightarrow>
          map_completion (\<lambda>(rs, seen2). (r # rs, seen2))
            (SerializeJSONProperties host n h seen1 stack indent vs)
      | Throw e \<Rightarrow> Throw e
      | OutOfFuel \<Rightarrow> OutOfFuel)"

text \<open>\<open>JSON.stringify(v, replacer, 2)\<close> with a fresh \<open>seen\<close>; the fuel is one more than
  the number of objects of the heap.\<close>

definition JSON_stringify :: "host \<Rightarrow> heap \<Rightarrow> jsval \<Rightarrow> (string option) completion" where
  "JSON_stringify host h v =
     map_completion fst (SerializeJSONProperty host (Suc (length h)) h {} [] [] v)"

section \<open>formatDebugObject\<close>

text \<open>The body of the \<open>try\<close> after the two tests for an \<open>Error\<close>, with its \<open>catch\<close>:
  what the serializer throws is converted to a string, and that conversion can throw.\<close>

definition stringify_or_diagnostic :: "host \<Rightarrow> heap \<Rightarrow> jsval \<Rightarrow> string completion" where
  "stringify_or_diagnostic host h obj =
     (case JSON_stringify host h obj of
        Normal r \<Rightarrow> Normal (NL # (case r of Some s \<Rightarrow> s | None \<Rightarrow> ''undefined''))
      | Throw err \<Rightarrow>
          map_completion (\<lambda>text. NL # ''[Unable to stringify object: '' @ text @ '']'')
            (error_toString err)
      | OutOfFuel \<Rightarrow> OutOfFuel)"

text \<open>\<open>Object.keys(obj)\<close> is called before the \<open>try\<close>: what it throws leaves the function.\<close>

definition formatDebugObject :: "host \<Rightarrow> heap \<Rightarrow> jsval \<Rightarrow> string completion" where
  "formatDebugObject host h obj =
     (if \<not> truthy obj then Normal []
      else (case Object_keys h obj of
              Throw e \<Rightarrow> Throw e
            | OutOfFuel \<Rightarrow> OutOfFuel
            | Normal keys \<Rightarrow>
                if length keys = 0 then Normal []
                else if instanceof_Error h obj then Normal (NL # stack_or_message h obj)
                else if instanceof_Error h (get_error h obj)
                  then Normal (NL # stack_or_message h (get_error h obj))
                else stringify_or_diagnostic host h obj))"

section \<open>Formatter\<close>

fun LEVEL_COLORS :: "LogLevel \<Rightarrow> string" where
  "LEVEL_COLORS Debug = ESC # ''[90m''"
| "LEVEL_COLORS Info = ESC # ''[34m''"
| "LEVEL_COLORS Warn = ESC # ''[33m''"
| "LEVEL_COLORS Error = ESC # ''[31m''"

text \<open>What \<open>new Date()\<close> reads from the clock, in local time; \<open>getMonth\<close> counts from 0.\<close>

record Date =
  getDate :: nat
  getMonth :: nat
  getHours :: nat
  getMinutes :: nat
  getSeconds :: nat
  getMilliseconds :: nat

definition formatTime :: "Date \<Rightarrow> string" where
  "formatTime now =
     (let day = padStart 2 (CHR ''0'') (nat_toString (getDate now));
          month = padStart 2 (CHR ''0'') (nat_toString (getMonth now + 1));
          hours = padStart 2 (CHR ''0'') (nat_toString (getHours now));
          minutes = padStart 2 (CHR ''0'') (nat_toString (getMinutes now));
          seconds = padStart 2 (CHR ''0'') (nat_toString (getSeconds now));
          ms = padStart 3 (CHR ''0'') (nat_toString (getMilliseconds now))
      in ESC # ''[2m['' @ month @ ''/'' @ day @ '' '' @ hours @ '':'' @ minutes @ '':''
           @ seconds @ ''.'' @ ms @ '']'' @ ESC # ''[0m'')"

text \<open>
  A \<open>LogContext\<close>: its \<open>module\<close>, which is only ever written from a parameter of type
  \<open>string\<close> (\<open>None\<close>: absent or \<open>undefined\<close>, as the type of \<open>formatLogMessage\<close> allows),
  and its other own properties in order.  Their values are of any kind: \<open>child\<close> copies
  whatever properties its options object has besides \<open>module\<close>, \<open>userId\<close> among them.
\<close>

record LogContext =
  module :: "string option"
  others :: props

definition module_or_app :: "LogContext \<Rightarrow> string" where
  "module_or_app context =
     (case module context of None \<Rightarrow> ''app'' | Some s \<Rightarrow> if s = [] then ''app'' else s)"

text \<open>\<open>context.userId\<close>, \<open>undefined\<close> where the context has no such property.\<close>

definition userId_of :: "LogContext \<Rightarrow> jsval" where
  "userId_of context = (case map_of (others context) ''userId'' of Some v \<Rightarrow> v | None \<Rightarrow> JUndefined)"

definition userPart :: "host \<Rightarrow> LogContext \<Rightarrow> string" where
  "userPart host context =
     (if truthy (userId_of context)
      then CHR '' '' # ESC # ''[35m['' @ ToString host (userId_of context) @ '']'' @ ESC # ''[0m''
      else [])"

definition levelStr :: "LogLevel \<Rightarrow> string" where
  "levelStr level =
     padEnd 10 (CHR '' '') (LEVEL_COLORS level @ toUpperCase (level_name level) @ '' '' @ ESC # ''[0m'')"

definition moduleColor :: "host \<Rightarrow> string \<Rightarrow> string" where
  "moduleColor host moduleName =
     (let moduleHue = getModuleColor moduleName
      in ESC # ''[38;2;'' @ int_toString (wave host moduleHue) @ '';''
           @ int_toString (wave host (moduleHue + 120)) @ '';''
           @ int_toString (wave host (moduleHue + 240)) @ ''m'')"

text \<open>
  The objects built for the payload are allocated at the end of the heap.  For the
  debug level \<open>contextData\<close> is the context without its module.  For the error level
  \<open>errorData\<close> is \<open>{ ...data, context: { ...context, module: undefined } }\<close>; where the
  key \<open>module\<close> stands in the inner object does not show, since the serializer leaves
  out a property that is \<open>undefined\<close>.  The spread of \<open>data\<close> is outside any \<open>try\<close>.
\<close>

definition build_errorData :: "heap \<Rightarrow> LogContext \<Rightarrow> jsval \<Rightarrow> (heap \<times> jsval) completion" where
  "build_errorData h context data =
     (case own_entries h data of
        Normal entries \<Rightarrow>
          (case alloc h (Obj ((''module'', JUndefined) # AList.delete ''module'' (others context))) of
             (h1, contextCopy) \<Rightarrow>
               Normal (alloc h1 (Obj (define_property ''context'' contextCopy entries))))
      | Throw e \<Rightarrow> Throw e
      | OutOfFuel \<Rightarrow> OutOfFuel)"

definition debugData :: "host \<Rightarrow> heap \<Rightarrow> LogLevel \<Rightarrow> LogContext \<Rightarrow> jsval \<Rightarrow> string completion" where
  "debugData host h level context data =
     (case level of
        Debug \<Rightarrow>
          (case alloc h (Obj (AList.delete ''module'' (others context))) of (h1, contextData) \<Rightarrow>
             (case (if length (AList.delete ''module'' (others context)) > 0
                    then formatDebugObject host h1 contextData else Normal []) of
                Normal d1 \<Rightarrow>
                  map_completion (\<lambda>d2. d1 @ d2)
                    (if truthy data then formatDebugObject host h1 data else Normal [])
              | Throw e \<Rightarrow> Throw e
              | OutOfFuel \<Rightarrow> OutOfFuel))
      | Error \<Rightarrow>
          (case build_errorData h context data of
             Normal (h2, errorData) \<Rightarrow>
               (case Object_keys h2 errorData of
                  Normal keys \<Rightarrow>
                    if length keys > 0 then formatDebugObject host h2 errorData else Normal []
                | Throw e \<Rightarrow> Throw e
                | OutOfFuel \<Rightarrow> OutOfFuel)
           | Throw e \<Rightarrow> Throw e
           | OutOfFuel \<Rightarrow> OutOfFuel)
      | _ \<Rightarrow> if truthy data then formatDebugObject host h data else Normal [])"

definition formatLogMessage ::
    "host \<Rightarrow> Date \<Rightarrow> heap \<Rightarrow> LogLevel \<Rightarrow> LogContext \<Rightarrow> string \<Rightarrow> jsval \<Rightarrow> string completion" where
  "formatLogMessage host now h level context message data =
     (let moduleName = module_or_app context;
          timestamp = formatTime now
      in map_completion
           (\<lambda>d. timestamp @ '' '' @ levelStr level @ moduleColor host moduleName
                 @ ''['' @ moduleName @ '']'' @ ESC # ''[0m'' @ userPart host context
                 @ '' '' @ message @ d)
           (debugData host h level context data))"

section \<open>Logger\<close>

datatype sink = console_error | console_warn | console_debug | console_log

fun sink_of :: "LogLevel \<Rightarrow> sink" where
  "sink_of Error = console_error"
| "sink_of Warn = console_warn"
| "sink_of Debug = console_debug"
| "sink_of Info = console_log"

text \<open>
  The state of the process: the environment variable, the heap of the data objects,
  the Logger objects (a Logger is its index, the entry is the contents of its
  \<open>context\<close> object, which is a fresh object at every assignment) and the lines
  written to the console so far.
\<close>

record world =
  LOG_LEVEL :: "string option"
  objects :: heap
  loggers :: "LogContext list"
  console :: "(sink \<times> string) list"

definition context_of :: "world \<Rightarrow> nat \<Rightarrow> LogContext" where
  "context_of w this =
     (if this < length (loggers w) then loggers w ! this else \<lparr>module = None, others = []\<rparr>)"

text \<open>The constructor: its parameter is a string and defaults to \<open>'app'\<close> when the
  argument is left out (\<open>None\<close>).\<close>

definition new_Logger :: "world \<Rightarrow> string option \<Rightarrow> world \<times> nat" where
  "new_Logger w arg =
     (w\<lparr>loggers := loggers w
           @ [\<lparr>module = Some (case arg of None \<Rightarrow> ''app'' | Some s \<Rightarrow> s), others = []\<rparr>]\<rparr>,
      length (loggers w))"

text \<open>\<open>log\<close> returns \<open>this\<close>; the model returns the state after the call.\<close>

definition log :: "host \<Rightarrow> Date \<Rightarrow> world \<Rightarrow> nat \<Rightarrow> LogLevel \<Rightarrow> string \<Rightarrow> jsval \<Rightarrow> world completion" where
  "log host now w this level message data =
     (if \<not> shouldLog (LOG_LEVEL w) level then Normal w
      else map_completion
             (\<lambda>formattedMessage. w\<lparr>console := console w @ [(sink_of level, formattedMessage)]\<rparr>)
             (formatLogMessage host now (objects w) level (context_of w this) message data))"

text \<open>\<open>userId || undefined\<close>, for a string or \<open>null\<close> (\<open>None\<close>).\<close>

definition or_undefined :: "string option \<Rightarrow> jsval" where
  "or_undefined userId =
     (case userId of None \<Rightarrow> JUndefined | Some s \<Rightarrow> if s = [] then JUndefined else JStr s)"

definition setUserId :: "world \<Rightarrow> nat \<Rightarrow> string option \<Rightarrow> world" where
  "setUserId w this userId =
     w\<lparr>loggers := (loggers w)
          [this := (context_of w this)
                     \<lparr>others := define_property ''userId'' (or_undefined userId)
                                  (others (context_of w this))\<rparr>]\<rparr>"

text \<open>\<open>child\<close>: the options object is given by its \<open>module\<close>, a string by its type,
  and the list of its other own properties.\<close>

definition child :: "world \<Rightarrow> nat \<Rightarrow> string \<Rightarrow> props \<Rightarrow> world \<times> nat" where
  "child w this moduleName extra =
     (case new_Logger w (Some moduleName) of (w1, logger) \<Rightarrow>
        (w1\<lparr>loggers := (loggers w1)
              [logger := \<lparr>module = Some moduleName,
                          others = spread (others (context_of w this)) extra\<rparr>]\<rparr>,
         logger))"

text \<open>The module's default export, in a process that has logged nothing yet.\<close>

definition initial_world :: "string option \<Rightarrow> world" where
  "initial_world env =
     fst (new_Logger \<lparr>LOG_LEVEL = env, objects = [], loggers = [], console = []\<rparr> None)"

section \<open>The forms the specification names\<close>


text \<open>Numbers written with exactly two and exactly three decimal digits.\<close>

definition two_digits :: "nat \<Rightarrow> string" where
  "two_digits n = [digit_char (n div 10 mod 10), digit_char (n mod 10)]"

definition three_digits :: "nat \<Rightarrow> string" where
  "three_digits n = [digit_char (n div 100 mod 10), digit_char (n div 10 mod 10), digit_char (n mod 10)]"

definition time_of_day :: "Date \<Rightarrow> string" where
  "time_of_day now =
     two_digits (getHours now) @ '':'' @ two_digits (getMinutes now) @ '':''
       @ two_digits (getSeconds now) @ ''.'' @ three_digits (getMilliseconds now)"

text \<open>The bracketed timestamp with the day of the month first, and with the month first.\<close>

definition timestamp_day_month :: "Date \<Rightarrow> string" where
  "timestamp_day_month now =
     ''['' @ two_digits (getDate now) @ ''/'' @ two_digits (getMonth now + 1) @ '' ''
       @ time_of_day now @ '']''"

definition timestamp_month_day :: "Date \<Rightarrow> string" where
  "timestamp_month_day now =
     ''['' @ two_digits (getMonth now + 1) @ ''/'' @ two_digits (getDate now) @ '' ''
       @ time_of_day now @ '']''"

text \<open>The ranges of the fields of a clock reading.\<close>

definition valid_Date :: "Date \<Rightarrow> bool" where
  "valid_Date now =
     (1 \<le> getDate now \<and> getDate now \<le> 31 \<and> getMonth now \<le> 11 \<and> getHours now \<le> 23
      \<and> getMinutes now \<le> 59 \<and> getSeconds now \<le> 59 \<and> getMilliseconds now \<le> 999)"

text \<open>The user tag of a line for a user id.\<close>

definition user_tag :: "string \<Rightarrow> string" where
  "user_tag text = CHR '' '' # ESC # ''[35m['' @ text @ '']'' @ ESC # ''[0m''"

text \<open>A heap of plain data has no proxy in it.\<close>

fun plain_object :: "jsobj \<Rightarrow> bool" where
  "plain_object (ThrowingProxy e) = False"
| "plain_object _ = True"

definition plain_heap :: "heap \<Rightarrow> bool" where
  "plain_heap h = list_all plain_object h"

section \<open>Example inputs\<close>

abbreviation example_host :: host where
  "example_host \<equiv>
     \<lparr>wave = (\<lambda>d. 0), number_text = (\<lambda>r. ''1e+21''), object_toString = (\<lambda>v. ''[object Object]'')\<rparr>"

abbreviation second_of_November :: Date where
  "second_of_November \<equiv>
     \<lparr>getDate = 2, getMonth = 10, getHours = 9, getMinutes = 5, getSeconds = 7, getMilliseconds = 42\<rparr>"

section \<open>Measures for the serializer\<close>

text \<open>The number of objects of the heap that the replacer has not seen yet, and what
  it means for a call of the serializer to come back with a larger \<open>seen\<close>.\<close>

definition unseen :: "heap \<Rightarrow> nat set \<Rightarrow> nat" where
  "unseen h seen = card ({..<length h} - seen)"

definition completes :: "nat set \<Rightarrow> ('a \<times> nat set) completion \<Rightarrow> bool" where
  "completes seen c =
     (case c of Normal (r, seen') \<Rightarrow> seen \<subseteq> seen' | Throw e \<Rightarrow> True | OutOfFuel \<Rightarrow> False)"

text \<open>A call of the serializer that, if it throws, throws for a BigInt.\<close>

definition tame :: "nat set \<Rightarrow> ('a \<times> nat set) completion \<Rightarrow> bool" where
  "tame seen c =
     (case c of
        Normal (r, seen') \<Rightarrow> seen \<subseteq> seen'
      | Throw e \<Rightarrow> e = BigInt_TypeError
      | OutOfFuel \<Rightarrow> True)"

section \<open>Properties of the serializer\<close>

lemma unseen_mono: "seen \<subseteq> seen' \<Longrightarrow> unseen h seen' \<le> unseen h seen"
  unfolding unseen_def by (rule card_mono) auto

lemma unseen_insert:
  assumes "a < length h" and "a \<notin> seen"
  shows "unseen h (insert a seen) < unseen h seen"
proof -
  have "{..<length h} - insert a seen \<subset> {..<length h} - seen"
    using assms by auto
  then show ?thesis
    unfolding unseen_def by (intro psubset_card_mono) auto
qed

lemma deref_Some_less: "deref h a = Some ob \<Longrightarrow> a < length h"
  by (simp add: deref_def split: if_splits)


lemma properties_complete:
  assumes one: "\<And>seen stack indent v. unseen h seen < n \<Longrightarrow>
                  completes seen (SerializeJSONProperty host n h seen stack indent v)"
  shows "unseen h seen < n \<Longrightarrow>
           completes seen (SerializeJSONProperties host n h seen stack indent vs)"
proof (induction vs arbitrary: seen)
  case Nil
  then show ?case by (simp add: completes_def)
next
  case (Cons v vs)
  show ?case
  proof (cases "SerializeJSONProperty host n h seen stack indent v")
    case (Normal p)
    obtain r seen1 where p: "p = (r, seen1)" by (cases p)
    from one [OF Cons.prems, of stack indent v] Normal p
    have sub: "seen \<subseteq> seen1" by (simp add: completes_def)
    then have "unseen h seen1 < n"
      using unseen_mono [OF sub, of h] Cons.prems by simp
    from Cons.IH [OF this] sub Normal p show ?thesis
      by (auto simp: completes_def map_completion_def split: completion.splits)
  next
    case (Throw e)
    then show ?thesis by (simp add: completes_def)
  next
    case OutOfFuel
    with one [OF Cons.prems, of stack indent v] show ?thesis
      by (simp add: completes_def)
  qed
qed

lemma property_complete:
  "unseen h seen < n \<Longrightarrow> completes seen (SerializeJSONProperty host n h seen stack indent v)"
proof (induction n arbitrary: seen stack indent v)
  case 0
  then show ?case by simp
next
  case (Suc n)
  show ?case
  proof (cases v)
    case (JRef a)
    show ?thesis
    proof (cases "a \<in> seen")
      case True
      with JRef show ?thesis
        by (simp add: replacer_def primitive_text_def completes_def map_completion_def)
    next
      case False
      show ?thesis
      proof (cases "deref h a")
        case None
        with JRef False show ?thesis
          by (auto simp: replacer_def completes_def)
      next
        case (Some ob)
        from unseen_insert [OF deref_Some_less [OF Some] False] Suc.prems
        have less: "unseen h (insert a seen) < n" by simp
        show ?thesis
        proof (cases "own_entries_of ob")
          case (Normal ps)
          have "completes (insert a seen)
                  (SerializeJSONProperties host n h (insert a seen) (a # stack) (indent @ gap)
                     (map snd ps))"
            by (rule properties_complete [OF Suc.IH less])
          with JRef False Some Normal show ?thesis
            by (auto simp: replacer_def completes_def map_completion_def split: completion.splits)
        next
          case (Throw e)
          with JRef False Some show ?thesis
            by (simp add: replacer_def completes_def)
        next
          case OutOfFuel
          then show ?thesis
            by (cases ob) (simp_all add: own_entries_of_def)
        qed
      qed
    qed
  qed (simp_all add: replacer_def primitive_text_def completes_def map_completion_def)
qed

lemma JSON_stringify_returns: "JSON_stringify host h v \<noteq> OutOfFuel"
  using property_complete [of h "{}" "Suc (length h)" host "[]" "[]" v]
  by (auto simp: JSON_stringify_def unseen_def completes_def map_completion_def
      split: completion.splits)

lemma plain_heap_deref: "plain_heap h \<Longrightarrow> deref h a = Some ob \<Longrightarrow> plain_object ob"
  by (auto simp: plain_heap_def deref_def list_all_length split: if_splits)

lemma plain_object_entries: "plain_object ob \<Longrightarrow> \<exists>ps. own_entries_of ob = Normal ps"
  by (cases ob) (simp_all add: own_entries_of_def)

lemma properties_tame:
  assumes one: "\<And>seen stack indent v. set stack \<subseteq> seen \<Longrightarrow>
                  tame seen (SerializeJSONProperty host n h seen stack indent v)"
  shows "set stack \<subseteq> seen \<Longrightarrow> tame seen (SerializeJSONProperties host n h seen stack indent vs)"
proof (induction vs arbitrary: seen)
  case Nil
  then show ?case by (simp add: tame_def)
next
  case (Cons v vs)
  show ?case
  proof (cases "SerializeJSONProperty host n h seen stack indent v")
    case (Normal p)
    obtain r seen1 where p: "p = (r, seen1)" by (cases p)
    from one [OF Cons.prems, of indent v] Normal p
    have sub: "seen \<subseteq> seen1" by (simp add: tame_def)
    with Cons.prems have "set stack \<subseteq> seen1" by blast
    from Cons.IH [OF this] sub Normal p show ?thesis
      by (auto simp: tame_def map_completion_def split: completion.splits)
  next
    case (Throw e)
    with one [OF Cons.prems, of indent v] show ?thesis
      by (simp add: tame_def)
  next
    case OutOfFuel
    then show ?thesis by (simp add: tame_def)
  qed
qed

lemma property_tame:
  assumes plain: "plain_heap h"
  shows "set stack \<subseteq> seen \<Longrightarrow> tame seen (SerializeJSONProperty host n h seen stack indent v)"
proof (induction n arbitrary: seen stack indent v)
  case 0
  then show ?case by (simp add: tame_def)
next
  case (Suc n)
  show ?case
  proof (cases v)
    case (JRef a)
    show ?thesis
    proof (cases "a \<in> seen")
      case True
      with JRef show ?thesis
        by (simp add: replacer_def primitive_text_def tame_def map_completion_def)
    next
      case False
      with Suc.prems have fresh: "a \<notin> set stack" by blast
      show ?thesis
      proof (cases "deref h a")
        case None
        with JRef False show ?thesis
          by (auto simp: replacer_def tame_def)
      next
        case (Some ob)
        obtain ps where ps: "own_entries_of ob = Normal ps"
          using plain_object_entries [OF plain_heap_deref [OF plain Some]] by blast
        from Suc.prems have st: "set (a # stack) \<subseteq> insert a seen" by auto
        have "tame (insert a seen)
                (SerializeJSONProperties host n h (insert a seen) (a # stack) (indent @ gap) (map snd ps))"
          by (rule properties_tame [OF Suc.IH st])
        with JRef False fresh Some ps show ?thesis
          by (auto simp: replacer_def tame_def map_completion_def split: completion.splits)
      qed
    qed
  qed (simp_all add: replacer_def primitive_text_def tame_def map_completion_def)
qed

lemma JSON_stringify_plain:
  "plain_heap h \<Longrightarrow> JSON_stringify host h v = Throw e \<Longrightarrow> e = BigInt_TypeError"
  using property_tame [of h "[]" "{}" host "Suc (length h)" "[]" v]
  by (auto simp: JSON_stringify_def tame_def map_completion_def split: completion.splits)

lemma error_toString_returns: "error_toString e \<noteq> OutOfFuel"
  by (cases e) (simp_all add: error_toString_def)

lemma stringify_or_diagnostic_returns: "stringify_or_diagnostic host h obj \<noteq> OutOfFuel"
  using JSON_stringify_returns [of host h obj] error_toString_returns
  by (auto simp: stringify_or_diagnostic_def map_completion_def split: completion.splits)

lemma stringify_or_diagnostic_plain:
  "plain_heap h \<Longrightarrow> \<exists>s. stringify_or_diagnostic host h obj = Normal s"
  using JSON_stringify_returns [of host h obj] JSON_stringify_plain [of h host obj]
  by (auto simp: stringify_or_diagnostic_def map_completion_def error_toString_def
      split: completion.splits)

lemma own_entries_returns: "own_entries h v \<noteq> OutOfFuel"
  by (auto simp: own_entries_def own_entries_of_def split: jsval.splits option.splits jsobj.splits)

lemma own_entries_plain: "plain_heap h \<Longrightarrow> \<exists>ps. own_entries h v = Normal ps"
  using plain_object_entries plain_heap_deref
  by (cases v) (auto simp: own_entries_def split: option.splits)

lemma formatDebugObject_returns: "formatDebugObject host h obj \<noteq> OutOfFuel"
  using own_entries_returns [of h obj] stringify_or_diagnostic_returns [of host h obj]
  by (auto simp: formatDebugObject_def Object_keys_def map_completion_def split: completion.splits)

lemma formatDebugObject_plain: "plain_heap h \<Longrightarrow> \<exists>s. formatDebugObject host h obj = Normal s"
  using own_entries_plain [of h obj] stringify_or_diagnostic_plain [of h host obj]
  by (auto simp: formatDebugObject_def Object_keys_def map_completion_def)

section \<open>Rendering returns\<close>

lemma plain_heap_alloc: "plain_heap (h @ [Obj ps]) = plain_heap h"
  by (simp add: plain_heap_def)

lemma debug_blocks_plain:
  assumes "plain_heap h1"
  shows "\<exists>d. (case (if b then formatDebugObject host h1 c else Normal []) of
               Normal d1 \<Rightarrow>
                 map_completion (\<lambda>d2. d1 @ d2) (if t then formatDebugObject host h1 data else Normal [])
             | Throw e \<Rightarrow> Throw e
             | OutOfFuel \<Rightarrow> OutOfFuel) = Normal d"
proof -
  obtain d1 where d1: "formatDebugObject host h1 c = Normal d1"
    using formatDebugObject_plain [OF assms] by blast
  obtain d2 where d2: "formatDebugObject host h1 data = Normal d2"
    using formatDebugObject_plain [OF assms] by blast
  from d1 d2 show ?thesis
    by (simp add: map_completion_def)
qed

lemma build_errorData_returns: "build_errorData h context data \<noteq> OutOfFuel"
  using own_entries_returns [of h data]
  by (auto simp: build_errorData_def alloc_def split: completion.splits)

lemma build_errorData_plain:
  "plain_heap h \<Longrightarrow> \<exists>h2 errorData. build_errorData h context data = Normal (h2, errorData) \<and> plain_heap h2"
  using own_entries_plain [of h data]
  by (auto simp: build_errorData_def alloc_def plain_heap_def)

lemma Object_keys_returns: "Object_keys h v \<noteq> OutOfFuel"
  using own_entries_returns [of h v]
  by (auto simp: Object_keys_def map_completion_def split: completion.splits)

lemma Object_keys_plain: "plain_heap h \<Longrightarrow> \<exists>ks. Object_keys h v = Normal ks"
  using own_entries_plain [of h v]
  by (auto simp: Object_keys_def map_completion_def)

lemma debugData_returns: "debugData host h level context data \<noteq> OutOfFuel"
proof (cases level)
  case Debug
  then show ?thesis
    using formatDebugObject_returns
    by (auto simp: debugData_def alloc_def map_completion_def split: completion.splits)
next
  case Info
  then show ?thesis
    using formatDebugObject_returns by (auto simp: debugData_def)
next
  case Warn
  then show ?thesis
    using formatDebugObject_returns by (auto simp: debugData_def)
next
  case Error
  then show ?thesis
    using formatDebugObject_returns build_errorData_returns [of h "context" data] Object_keys_returns
    by (auto simp: debugData_def split: completion.splits)
qed

lemma debugData_plain:
  assumes "plain_heap h"
  shows "\<exists>d. debugData host h level context data = Normal d"
proof (cases level)
  case Debug
  let ?h1 = "h @ [Obj (AList.delete ''module'' (others context))]"
  have p1: "plain_heap ?h1"
    using assms by (simp add: plain_heap_alloc)
  from Debug show ?thesis
    using debug_blocks_plain [OF p1, where b = "length (AList.delete ''module'' (others context)) > 0"
        and host = host and c = "JRef (length h)" and t = "truthy data" and data = data]
    by (simp add: debugData_def alloc_def)
next
  case Info
  then show ?thesis
    using formatDebugObject_plain [OF assms, of host data] by (auto simp: debugData_def)
next
  case Warn
  then show ?thesis
    using formatDebugObject_plain [OF assms, of host data] by (auto simp: debugData_def)
next
  case Error
  obtain h2 errorData where b: "build_errorData h context data = Normal (h2, errorData)"
    and p2: "plain_heap h2"
    using build_errorData_plain [OF assms] by blast
  obtain ks where ks: "Object_keys h2 errorData = Normal ks"
    using Object_keys_plain [OF p2] by blast
  obtain d where d: "formatDebugObject host h2 errorData = Normal d"
    using formatDebugObject_plain [OF p2] by blast
  from Error b ks d show ?thesis
    by (simp add: debugData_def)
qed

lemma formatLogMessage_returns:
  "formatLogMessage host now h level context message data \<noteq> OutOfFuel"
  using debugData_returns [of host h level "context" data]
  by (auto simp: formatLogMessage_def Let_def map_completion_def split: completion.splits)

lemma formatLogMessage_plain:
  "plain_heap h \<Longrightarrow> \<exists>line. formatLogMessage host now h level context message data = Normal line"
  using debugData_plain [of h host level "context" data]
  by (auto simp: formatLogMessage_def Let_def map_completion_def)

section \<open>Level filter\<close>

lemma LEVEL_VALUES_get_level: "LEVEL_VALUES_get (level_name M) = LevelNumber (ordinal M)"
  by (cases M) (simp_all add: LEVEL_VALUES_get_def LEVEL_VALUES_def)

lemma getLogLevel_level:
  "toLowerCase s = level_name M \<Longrightarrow> getLogLevel (Some s) = level_name M"
proof -
  assume low: "toLowerCase s = level_name M"
  have "level_name M \<noteq> []" by (cases M) simp_all
  with low have "s \<noteq> []" by (auto simp: toLowerCase_def)
  with low show ?thesis
    by (simp add: getLogLevel_def LEVEL_VALUES_get_level)
qed

lemma shouldLog_level:
  "toLowerCase s = level_name M \<Longrightarrow> shouldLog (Some s) L = (ordinal M \<le> ordinal L)"
  by (simp add: shouldLog_def getLogLevel_level LEVEL_VALUES_get_level)

text \<open>
  C1.  When the configured value names the level \<open>M\<close>, in any letter case, a level
  \<open>L\<close> is enabled exactly if its ordinal is at least that of \<open>M\<close>.  A log call below
  \<open>M\<close> leaves the state as it is, so nothing is written.  A call at or above \<open>M\<close>
  whose data are plain returns and appends exactly one line, to the sink of its level;
  with any data, it appends that one line or throws.
\<close>

theorem level_filter:
  assumes "LOG_LEVEL w = Some s" and "toLowerCase s = level_name M"
  shows "shouldLog (LOG_LEVEL w) L = (ordinal M \<le> ordinal L)
       \<and> (ordinal L < ordinal M \<longrightarrow> log host now w this L message data = Normal w)
       \<and> (ordinal M \<le> ordinal L \<and> plain_heap (objects w) \<longrightarrow>
            (\<exists>line. log host now w this L message data
                      = Normal (w\<lparr>console := console w @ [(sink_of L, line)]\<rparr>)))
       \<and> (ordinal M \<le> ordinal L \<longrightarrow>
            (\<exists>line. log host now w this L message data
                      = Normal (w\<lparr>console := console w @ [(sink_of L, line)]\<rparr>))
            \<or> (\<exists>e. log host now w this L message data = Throw e))"
proof -
  let ?line = "formatLogMessage host now (objects w) L (context_of w this) message data"
  have filter: "shouldLog (LOG_LEVEL w) L = (ordinal M \<le> ordinal L)"
    using assms by (simp add: shouldLog_level)
  have below: "log host now w this L message data = Normal w" if "ordinal L < ordinal M"
    using that filter by (simp add: log_def)
  have plain: "\<exists>line. log host now w this L message data
                      = Normal (w\<lparr>console := console w @ [(sink_of L, line)]\<rparr>)"
    if le: "ordinal M \<le> ordinal L" and pl: "plain_heap (objects w)"
  proof -
    obtain line where "?line = Normal line"
      using formatLogMessage_plain [OF pl] by blast
    with le filter show ?thesis
      by (auto simp: log_def map_completion_def)
  qed
  have any: "(\<exists>line. log host now w this L message data
                      = Normal (w\<lparr>console := console w @ [(sink_of L, line)]\<rparr>))
            \<or> (\<exists>e. log host now w this L message data = Throw e)"
    if "ordinal M \<le> ordinal L"
    using that filter formatLogMessage_returns [of host now "objects w" L "context_of w this" message data]
    by (cases ?line) (auto simp: log_def map_completion_def)
  from filter below plain any show ?thesis
    by blast
qed

theorem level_filter_witness:
  "shouldLog (LOG_LEVEL (initial_world (Some ''WARN''))) Info = (ordinal Warn \<le> ordinal Info)
   \<and> log example_host second_of_November (initial_world (Some ''WARN'')) 0 Info ''hello'' JUndefined
       = Normal (initial_world (Some ''WARN''))
   \<and> plain_heap (objects (initial_world (Some ''WARN'')))
   \<and> (\<exists>line. log example_host second_of_November (initial_world (Some ''WARN'')) 0 Error ''hello'' JUndefined
          = Normal ((initial_world (Some ''WARN''))\<lparr>console := [(console_error, line)]\<rparr>))"
proof -
  let ?w = "initial_world (Some ''WARN'')"
  have env: "LOG_LEVEL ?w = Some ''WARN''"
    by (simp add: initial_world_def new_Logger_def)
  have low: "toLowerCase ''WARN'' = level_name Warn"
    by code_simp
  have empty: "console ?w = []"
    by (simp add: initial_world_def new_Logger_def)
  have plain: "plain_heap (objects ?w)"
    by (simp add: initial_world_def new_Logger_def plain_heap_def)
  from level_filter [OF env low, of Info example_host second_of_November 0 "''hello''" JUndefined]
  have below: "shouldLog (LOG_LEVEL ?w) Info = (ordinal Warn \<le> ordinal Info)
      \<and> log example_host second_of_November ?w 0 Info ''hello'' JUndefined = Normal ?w"
    by simp
  from level_filter [OF env low, of Error example_host second_of_November 0 "''hello''" JUndefined] plain
  have "\<exists>line. log example_host second_of_November ?w 0 Error ''hello'' JUndefined
          = Normal (?w\<lparr>console := console ?w @ [(sink_of Error, line)]\<rparr>)"
    by simp
  with below plain show ?thesis
    unfolding empty by simp
qed

text \<open>The letter case of the value is ignored, and an absent value, like a value under
  whose name \<open>LEVEL_VALUES\<close> has no property at all, filters as \<open>info\<close> does.\<close>

lemma absent_is_info: "shouldLog None L = shouldLog (Some ''info'') L"
  by (simp add: shouldLog_def getLogLevel_def)

lemma unknown_is_info:
  "LEVEL_VALUES_get (toLowerCase s) = Undefined \<Longrightarrow> shouldLog (Some s) L = shouldLog (Some ''info'') L"
proof -
  assume u: "LEVEL_VALUES_get (toLowerCase s) = Undefined"
  have i: "getLogLevel (Some ''info'') = ''info''"
    by code_simp
  have e: "getLogLevel (Some []) = ''info''"
    by code_simp
  from u have "getLogLevel (Some s) = ''info''"
    by (cases "s = []") (simp_all add: e, simp add: getLogLevel_def)
  with i show ?thesis
    by (simp add: shouldLog_def)
qed

lemma letter_case_is_ignored:
  "s \<noteq> [] \<Longrightarrow> t \<noteq> [] \<Longrightarrow> toLowerCase s = toLowerCase t \<Longrightarrow> shouldLog (Some s) L = shouldLog (Some t) L"
  by (simp add: shouldLog_def getLogLevel_def)

text \<open>
  C5.  The value \<open>constructor\<close> is not the name of a level, yet it does not behave
  as \<open>info\<close>: \<open>LEVEL_VALUES\<close> inherits a property of that name, so the value is
  kept as the level, the comparison is with NaN, and no level is enabled; an error-level
  call writes nothing, while under \<open>info\<close> the error level is enabled.
\<close>

theorem constructor_disables_every_level:
  "getLogLevel (Some ''constructor'') = ''constructor''
   \<and> shouldLog (Some ''constructor'') L = False
   \<and> shouldLog (Some ''info'') Error = True
   \<and> log host now (initial_world (Some ''constructor'')) 0 Error message data
       = Normal (initial_world (Some ''constructor''))"
proof -
  have g: "getLogLevel (Some ''constructor'') = ''constructor''"
    by code_simp
  have v: "LEVEL_VALUES_get ''constructor'' = InheritedFunction"
    by code_simp
  have no: "\<not> shouldLog (Some ''constructor'') K" for K
    by (simp add: shouldLog_def g v LEVEL_VALUES_get_level)
  have yes: "shouldLog (Some ''info'') Error"
    by code_simp
  have "log host now (initial_world (Some ''constructor'')) 0 Error message data
          = Normal (initial_world (Some ''constructor''))"
    using no [of Error] by (simp add: log_def initial_world_def new_Logger_def)
  with g no yes show ?thesis by simp
qed

section \<open>Exceptions that leave the formatter\<close>

text \<open>On a heap of plain data \<open>formatDebugObject\<close> always returns a string, and the
  object of the test suite, \<open>circular.self = circular\<close>, is rendered with the
  placeholder.\<close>

lemma circular_self:
  "formatDebugObject example_host [Obj [(''self'', JRef 0)]] (JRef 0)
     = Normal (NL # ''{'' @ NL # ''  '' @ QuoteJSONString ''self'' @ '': ''
               @ QuoteJSONString ''[Circular]'' @ NL # ''}'')"
  by code_simp

lemma BigInt_diagnostic:
  "formatDebugObject example_host [Obj [(''n'', JBigInt 1)]] (JRef 0)
     = Normal (NL # ''[Unable to stringify object: TypeError: Do not know how to serialize a BigInt]'')"
  by code_simp

text \<open>
  C4.  Rendering can throw.  For the data
  \<open>new Proxy({}, { ownKeys() { throw new Error('no') } })\<close> the call of \<open>Object.keys\<close>
  before the \<open>try\<close> throws, so \<open>formatDebugObject\<close> throws, and so does an info-level
  log call with that data, which writes nothing.  At the error level the spread of
  the data throws, outside any \<open>try\<close>.  For the data \<open>{ inner: p }\<close>, where listing the
  keys of the proxy \<open>p\<close> throws a symbol, the serializer throws inside the \<open>try\<close>, and the
  conversion of the symbol to a string in the \<open>catch\<close> throws a \<open>TypeError\<close>.
\<close>

theorem rendering_can_raise:
  "formatDebugObject example_host [ThrowingProxy (Thrown_Error ''no'')] (JRef 0)
     = Throw (Thrown_Error ''no'')
   \<and> log example_host second_of_November
         ((initial_world None)\<lparr>objects := [ThrowingProxy (Thrown_Error ''no'')]\<rparr>) 0 Info ''x'' (JRef 0)
     = Throw (Thrown_Error ''no'')
   \<and> debugData example_host [ThrowingProxy (Thrown_Error ''no'')] Error
         \<lparr>module = Some ''app'', others = []\<rparr> (JRef 0)
     = Throw (Thrown_Error ''no'')
   \<and> log example_host second_of_November
         ((initial_world None)\<lparr>objects := [ThrowingProxy (Thrown_Error ''no'')]\<rparr>) 0 Error ''x'' (JRef 0)
     = Throw (Thrown_Error ''no'')
   \<and> formatDebugObject example_host [Obj [(''inner'', JRef 1)], ThrowingProxy Thrown_Symbol] (JRef 0)
     = Throw Symbol_TypeError"
  by code_simp

section \<open>Writing properties\<close>

lemma map_of_insert_index:
  "map_of ps k = None \<Longrightarrow> map_of (insert_index i k v ps) = (map_of ps)(k \<mapsto> v)"
proof (induction ps)
  case Nil
  then show ?case by simp
next
  case (Cons p ps)
  obtain k' v' where p: "p = (k', v')" by (cases p)
  with Cons.prems have ne: "k' \<noteq> k" and rest: "map_of ps k = None"
    by (auto split: if_splits)
  from Cons.IH [OF rest] p ne show ?case
    by (auto simp: fun_upd_twist split: option.splits)
qed

lemma map_of_define_property: "map_of (define_property k v ps) = (map_of ps)(k \<mapsto> v)"
proof (cases "map_of ps k")
  case None
  then have "[k \<mapsto> v] ++ map_of ps = (map_of ps)(k \<mapsto> v)"
    by (intro ext) (auto simp: map_add_def split: option.splits)
  with None show ?thesis
    by (auto simp: define_property_def map_of_insert_index split: option.splits)
next
  case (Some x)
  then show ?thesis
    by (simp add: define_property_def update_conv')
qed


lemma map_of_spread: "map_of (spread base over) = map_of base ++ map_of (rev over)"
  unfolding spread_def
proof (induction over arbitrary: base)
  case Nil
  then show ?case by simp
next
  case (Cons p over)
  obtain k v where p: "p = (k, v)" by (cases p)
  have "map_of (define_property k v base) ++ map_of (rev over)
          = map_of base ++ ([k \<mapsto> v] ++ map_of (rev over))"
    by (rule ext) (auto simp: map_of_define_property map_add_def split: option.splits)
  with Cons.IH [of "define_property k v base"] p show ?case
    by simp
qed

lemma map_of_rev_None: "map_of (rev ps) k = None \<longleftrightarrow> map_of ps k = None"
  by (simp add: map_of_eq_None_iff)

text \<open>New keys of the options follow the keys of the parent in the order in which the
  options list them, array indices apart, which come first.\<close>

lemma spread_order:
  "spread [(''userId'', JStr ''u'')] [(''b'', JNull), (''a'', JNull), (''7'', JNull), (''3'', JNull)]
     = [(''3'', JNull), (''7'', JNull), (''userId'', JStr ''u''), (''b'', JNull), (''a'', JNull)]"
  by code_simp

section \<open>Logger contexts\<close>

lemma context_of_setUserId_same:
  "this < length (loggers w) \<Longrightarrow>
   context_of (setUserId w this u) this
     = (context_of w this)
         \<lparr>others := define_property ''userId'' (or_undefined u) (others (context_of w this))\<rparr>"
  by (simp add: setUserId_def context_of_def)

lemma context_of_setUserId_other:
  "l \<noteq> this \<Longrightarrow> context_of (setUserId w this u) l = context_of w l"
  by (simp add: setUserId_def context_of_def)

lemma child_result:
  "child w this m extra =
     (w\<lparr>loggers := loggers w
           @ [\<lparr>module = Some m, others = spread (others (context_of w this)) extra\<rparr>]\<rparr>,
      length (loggers w))"
  by (simp add: child_def new_Logger_def)

lemma context_of_child_new:
  "context_of (fst (child w this m extra)) (snd (child w this m extra))
     = \<lparr>module = Some m, others = spread (others (context_of w this)) extra\<rparr>"
  by (simp add: child_result context_of_def)

lemma context_of_child_old:
  "l < length (loggers w) \<Longrightarrow> context_of (fst (child w this m extra)) l = context_of w l"
  by (simp add: child_result context_of_def nth_append)

text \<open>
  C2 as stated fails: after \<open>setUserId(null)\<close> on the root logger the key \<open>userId\<close> is
  still a key of the context, bound to \<open>undefined\<close>; a debug-level line then carries
  the payload \<open>{}\<close>, which a logger that never had a user id does not print.
\<close>

theorem setUserId_null_keeps_key:
  "''userId'' \<in> set (map fst (others (context_of (setUserId (initial_world None) 0 None) 0)))
   \<and> map_of (others (context_of (setUserId (initial_world None) 0 None) 0)) ''userId'' = Some JUndefined
   \<and> debugData example_host [] Debug (context_of (setUserId (initial_world None) 0 None) 0) JUndefined
       = Normal (NL # ''{}'')
   \<and> debugData example_host [] Debug (context_of (initial_world None) 0) JUndefined = Normal []"
  by code_simp

text \<open>
  C2, amended.  \<open>setUserId(null)\<close> on a logger binds the key \<open>userId\<close> of its context to
  \<open>undefined\<close>: the key stays, every other key and the module keep their values, and
  the rendered line has no user tag.
\<close>

theorem setUserId_null_binds_undefined:
  assumes "this < length (loggers w)"
  shows "map_of (others (context_of (setUserId w this None) this)) ''userId'' = Some JUndefined
       \<and> (\<forall>k. k \<noteq> ''userId'' \<longrightarrow>
            map_of (others (context_of (setUserId w this None) this)) k
              = map_of (others (context_of w this)) k)
       \<and> module (context_of (setUserId w this None) this) = module (context_of w this)
       \<and> userPart host (context_of (setUserId w this None) this) = []"
  using assms
  by (simp add: context_of_setUserId_same or_undefined_def map_of_define_property userPart_def
      userId_of_def)

theorem setUserId_null_binds_undefined_witness:
  "(0::nat) < length (loggers (initial_world None))
   \<and> map_of (others (context_of (setUserId (setUserId (initial_world None) 0 (Some ''user-123'')) 0 None) 0))
        ''userId'' = Some JUndefined
   \<and> module (context_of (setUserId (setUserId (initial_world None) 0 (Some ''user-123'')) 0 None) 0)
       = Some ''app''
   \<and> userPart example_host
        (context_of (setUserId (setUserId (initial_world None) 0 (Some ''user-123'')) 0 None) 0) = []"
proof -
  let ?w = "setUserId (initial_world None) 0 (Some ''user-123'')"
  have len: "(0::nat) < length (loggers ?w)"
    by (simp add: initial_world_def new_Logger_def setUserId_def)
  have len0: "(0::nat) < length (loggers (initial_world None))"
    by (simp add: initial_world_def new_Logger_def)
  have m: "module (context_of ?w 0) = Some ''app''"
    by code_simp
  from setUserId_null_binds_undefined [OF len, of example_host] len0 m show ?thesis
    by simp
qed

text \<open>
  C6.  \<open>child(options)\<close> makes a new logger, and gives it the context of the parent
  overlaid with \<open>options\<close>: the module is that of \<open>options\<close>, another key of
  \<open>options\<close> has the value \<open>options\<close> gives it (the last one, should the list name the
  key twice), any other key has the value the parent gives it, so the parent's
  \<open>userId\<close> is carried over when \<open>options\<close> has no such key.  The loggers that existed
  keep their contexts.
\<close>

theorem child_overlays_context:
  assumes "this < length (loggers w)" and "child w this m extra = (w1, logger)"
  shows "logger = length (loggers w) \<and> length (loggers w1) = Suc (length (loggers w))
       \<and> module (context_of w1 logger) = Some m
       \<and> (\<forall>k. map_of (others (context_of w1 logger)) k
               = (case map_of (rev extra) k of
                    Some v \<Rightarrow> Some v
                  | None \<Rightarrow> map_of (others (context_of w this)) k))
       \<and> (map_of extra ''userId'' = None \<longrightarrow>
            map_of (others (context_of w1 logger)) ''userId''
              = map_of (others (context_of w this)) ''userId'')
       \<and> (\<forall>l < length (loggers w). context_of w1 l = context_of w l)"
proof -
  from assms(2) have w1: "w1 = fst (child w this m extra)" and lg: "logger = snd (child w this m extra)"
    by simp_all
  have new: "context_of w1 logger = \<lparr>module = Some m, others = spread (others (context_of w this)) extra\<rparr>"
    unfolding w1 lg by (rule context_of_child_new)
  have old: "context_of w1 l = context_of w l" if "l < length (loggers w)" for l
    unfolding w1 using that by (rule context_of_child_old)
  have look: "map_of (others (context_of w1 logger)) k
      = (case map_of (rev extra) k of Some v \<Rightarrow> Some v | None \<Rightarrow> map_of (others (context_of w this)) k)" for k
    by (simp add: new map_of_spread map_add_def)
  have user: "map_of (others (context_of w1 logger)) ''userId''
              = map_of (others (context_of w this)) ''userId''"
    if none: "map_of extra ''userId'' = None"
  proof -
    from none have "map_of (rev extra) ''userId'' = None"
      by (simp add: map_of_rev_None)
    with look [of "''userId''"] show ?thesis
      by simp
  qed
  from assms(2) have "logger = length (loggers w)" and "length (loggers w1) = Suc (length (loggers w))"
    by (auto simp: child_result)
  with look old user new show ?thesis
    by simp
qed

theorem child_overlays_context_witness:
  "child (setUserId (initial_world None) 0 (Some ''user-123'')) 0 ''user'' [(''requestId'', JStr ''r1'')] =
     (\<lparr>LOG_LEVEL = None, objects = [],
       loggers = [\<lparr>module = Some ''app'', others = [(''userId'', JStr ''user-123'')]\<rparr>,
                  \<lparr>module = Some ''user'',
                    others = [(''userId'', JStr ''user-123''), (''requestId'', JStr ''r1'')]\<rparr>],
       console = []\<rparr>, 1)
   \<and> map_of [(''requestId'', JStr ''r1'')] ''userId'' = None
   \<and> map_of (others (context_of (fst (child (setUserId (initial_world None) 0 (Some ''user-123'')) 0
                                 ''user'' [(''requestId'', JStr ''r1'')])) 1)) ''userId''
       = map_of (others (context_of (setUserId (initial_world None) 0 (Some ''user-123'')) 0)) ''userId''
   \<and> context_of (fst (child (setUserId (initial_world None) 0 (Some ''user-123'')) 0
                         ''user'' [(''requestId'', JStr ''r1'')])) 0
       = context_of (setUserId (initial_world None) 0 (Some ''user-123'')) 0"
proof -
  let ?w = "setUserId (initial_world None) 0 (Some ''user-123'')"
  let ?w1 = "\<lparr>LOG_LEVEL = None, objects = [],
       loggers = [\<lparr>module = Some ''app'', others = [(''userId'', JStr ''user-123'')]\<rparr>,
                  \<lparr>module = Some ''user'',
                    others = [(''userId'', JStr ''user-123''), (''requestId'', JStr ''r1'')]\<rparr>],
       console = []\<rparr>"
  have len: "0 < length (loggers ?w)"
    by (simp add: setUserId_def initial_world_def new_Logger_def)
  have ch: "child ?w 0 ''user'' [(''requestId'', JStr ''r1'')] = (?w1, 1)"
    by code_simp
  have none: "map_of [(''requestId'', JStr ''r1'')] ''userId'' = None"
    by simp
  from child_overlays_context [OF len ch]
  have "map_of [(''requestId'', JStr ''r1'')] ''userId'' = None \<longrightarrow>
          map_of (others (context_of ?w1 1)) ''userId'' = map_of (others (context_of ?w 0)) ''userId''"
    by blast
  with none have inherited: "map_of (others (context_of ?w1 1)) ''userId''
      = map_of (others (context_of ?w 0)) ''userId''"
    by blast
  from child_overlays_context [OF len ch]
  have "\<forall>l < length (loggers ?w). context_of ?w1 l = context_of ?w l"
    by blast
  with len have "context_of ?w1 0 = context_of ?w 0"
    by blast
  with inherited none ch show ?thesis
    by (simp only: fst_conv simp_thms)
qed

lemma context_of_setUserId_many_other:
  "l \<noteq> this \<Longrightarrow> context_of (foldl (\<lambda>w u. setUserId w this u) w us) l = context_of w l"
  by (induction us arbitrary: w) (simp_all add: context_of_setUserId_other)

text \<open>
  C7.  The logger that \<open>child\<close> returns is another logger than its parent and has a
  context of its own: whatever user ids are set on the parent afterwards, the context
  of the child stays as it was when the child was made, and setting user ids on the
  child leaves the context of the parent as it was.
\<close>

theorem child_is_independent:
  assumes "parent < length (loggers w)" and "child w parent m extra = (w1, logger)"
  shows "logger \<noteq> parent
       \<and> context_of w1 parent = context_of w parent
       \<and> context_of (foldl (\<lambda>w u. setUserId w parent u) w1 us) logger = context_of w1 logger
       \<and> context_of (foldl (\<lambda>w u. setUserId w logger u) w1 us) parent = context_of w1 parent"
proof -
  from assms(2) have lg: "logger = length (loggers w)" and w1: "w1 = fst (child w parent m extra)"
    by (auto simp: child_result)
  from lg assms(1) have ne: "logger \<noteq> parent" by simp
  have "context_of w1 parent = context_of w parent"
    unfolding w1 using assms(1) by (rule context_of_child_old)
  with ne show ?thesis
    by (simp add: context_of_setUserId_many_other)
qed

theorem child_is_independent_witness:
  "context_of (foldl (\<lambda>w u. setUserId w 0 u)
                 (fst (child (setUserId (initial_world None) 0 (Some ''user-123'')) 0 ''user'' []))
                 [None, Some ''other'']) 1
     = \<lparr>module = Some ''user'', others = [(''userId'', JStr ''user-123'')]\<rparr>
   \<and> context_of (foldl (\<lambda>w u. setUserId w 1 u)
                 (fst (child (setUserId (initial_world None) 0 (Some ''user-123'')) 0 ''user'' []))
                 [None, Some ''other'']) 0
     = \<lparr>module = Some ''app'', others = [(''userId'', JStr ''user-123'')]\<rparr>"
proof -
  let ?w = "setUserId (initial_world None) 0 (Some ''user-123'')"
  let ?c = "child ?w 0 ''user'' []"
  have len: "0 < length (loggers ?w)"
    by (simp add: setUserId_def initial_world_def new_Logger_def)
  have ch: "?c = (fst ?c, 1)"
    by code_simp
  have c1: "context_of (fst ?c) 1 = \<lparr>module = Some ''user'', others = [(''userId'', JStr ''user-123'')]\<rparr>"
    by code_simp
  have c0: "context_of (fst ?c) 0 = \<lparr>module = Some ''app'', others = [(''userId'', JStr ''user-123'')]\<rparr>"
    by code_simp
  from child_is_independent [OF len ch, of "[None, Some ''other'']"] c1 c0 show ?thesis
    by (simp only: simp_thms)
qed

section \<open>The user tag\<close>

lemma formatLogMessage_line:
  "formatLogMessage host now h level context message data
     = map_completion
         (\<lambda>payload. formatTime now @ '' '' @ levelStr level @ moduleColor host (module_or_app context)
               @ ''['' @ module_or_app context @ '']'' @ ESC # ''[0m'' @ userPart host context
               @ '' '' @ message @ payload)
         (debugData host h level context data)"
  by (simp add: formatLogMessage_def Let_def)

text \<open>
  C10 as stated fails.  After \<open>setUserId('')\<close> the key \<open>userId\<close> is still a key of the
  context, and with \<open>LOG_LEVEL=debug\<close> the call \<open>logger.setUserId('').debug('x')\<close> does
  not write what \<open>logger.debug('x')\<close> writes on a logger that never had a user id.  A
  context whose \<open>userId\<close> is the empty string and the same context without the key
  are also rendered differently at the debug and at the error level.
\<close>

theorem empty_userId_is_not_absent:
  "''userId'' \<in> set (map fst (others (context_of (setUserId (initial_world (Some ''debug'')) 0 (Some [])) 0)))
   \<and> map_completion console
        (log example_host second_of_November
           (setUserId (initial_world (Some ''debug'')) 0 (Some [])) 0 Debug ''x'' JUndefined)
     \<noteq> map_completion console
        (log example_host second_of_November (initial_world (Some ''debug'')) 0 Debug ''x'' JUndefined)
   \<and> formatLogMessage example_host second_of_November [] Debug
        \<lparr>module = Some ''app'', others = [(''userId'', JStr [])]\<rparr> ''x'' JUndefined
     \<noteq> formatLogMessage example_host second_of_November [] Debug
        \<lparr>module = Some ''app'', others = []\<rparr> ''x'' JUndefined
   \<and> formatLogMessage example_host second_of_November [] Error
        \<lparr>module = Some ''app'', others = [(''userId'', JStr [])]\<rparr> ''x'' JUndefined
     \<noteq> formatLogMessage example_host second_of_November [] Error
        \<lparr>module = Some ''app'', others = []\<rparr> ''x'' JUndefined"
  by code_simp

text \<open>
  C10, amended.  The user tag goes by truthiness, not by the existence of the key.
  \<open>setUserId\<close> with the empty string leaves the very state that \<open>setUserId(null)\<close>
  leaves, with \<open>userId\<close> bound to \<open>undefined\<close>.  A context whose \<open>userId\<close> is truthy
  has the user tag with that value converted to a string; a context whose \<open>userId\<close>
  is falsy, the empty string included, or that has no such key, has none; and every
  rendered line carries exactly this tag between the module tag and the message.  The
  info and warn lines of a context whose \<open>userId\<close> is the empty string are those of
  the same context without the key.
\<close>

theorem user_tag_by_truthiness:
  "setUserId w this (Some []) = setUserId w this None
   \<and> (this < length (loggers w) \<longrightarrow>
        map_of (others (context_of (setUserId w this (Some [])) this)) ''userId'' = Some JUndefined)
   \<and> (map_of (others context) ''userId'' = Some v \<and> truthy v \<longrightarrow>
        userPart host context = user_tag (ToString host v))
   \<and> (map_of (others context) ''userId'' = Some v \<and> \<not> truthy v \<longrightarrow> userPart host context = [])
   \<and> (map_of (others context) ''userId'' = None \<longrightarrow> userPart host context = [])
   \<and> (\<forall>line. formatLogMessage host now h level context message data = Normal line \<longrightarrow>
        (\<exists>payload. line = formatTime now @ '' '' @ levelStr level
                      @ moduleColor host (module_or_app context)
                      @ ''['' @ module_or_app context @ '']'' @ ESC # ''[0m''
                      @ userPart host context @ '' '' @ message @ payload))
   \<and> (map_of (others context) ''userId'' = Some (JStr []) \<longrightarrow>
        formatLogMessage host now h Info context message data
          = formatLogMessage host now h Info
              (context\<lparr>others := AList.delete ''userId'' (others context)\<rparr>) message data
        \<and> formatLogMessage host now h Warn context message data
          = formatLogMessage host now h Warn
              (context\<lparr>others := AList.delete ''userId'' (others context)\<rparr>) message data)"
proof -
  have set_eq: "setUserId w this (Some []) = setUserId w this None"
    by (simp add: setUserId_def or_undefined_def)
  have bound: "map_of (others (context_of (setUserId w this (Some [])) this)) ''userId'' = Some JUndefined"
    if "this < length (loggers w)"
    using that by (simp add: context_of_setUserId_same or_undefined_def map_of_define_property)
  have tag: "userPart host context = user_tag (ToString host v)"
    if "map_of (others context) ''userId'' = Some v" and "truthy v"
    using that by (simp add: userPart_def userId_of_def user_tag_def)
  have falsy: "userPart host context = []"
    if "map_of (others context) ''userId'' = Some v" and "\<not> truthy v"
    using that by (simp add: userPart_def userId_of_def)
  have absent: "userPart host context = []" if "map_of (others context) ''userId'' = None"
    using that by (simp add: userPart_def userId_of_def)
  have line: "\<exists>payload. line = formatTime now @ '' '' @ levelStr level
                      @ moduleColor host (module_or_app context)
                      @ ''['' @ module_or_app context @ '']'' @ ESC # ''[0m''
                      @ userPart host context @ '' '' @ message @ payload"
    if "formatLogMessage host now h level context message data = Normal line" for line
    using that
    by (auto simp: formatLogMessage_line map_completion_def split: completion.splits)
  have same: "formatLogMessage host now h lv context message data
            = formatLogMessage host now h lv
                (context\<lparr>others := AList.delete ''userId'' (others context)\<rparr>) message data"
    if "map_of (others context) ''userId'' = Some (JStr [])" and "lv = Info \<or> lv = Warn" for lv
  proof -
    have "userPart host context = []"
      using that(1) by (simp add: userPart_def userId_of_def)
    moreover have "userPart host (context\<lparr>others := AList.delete ''userId'' (others context)\<rparr>) = []"
      by (simp add: userPart_def userId_of_def delete_conv')
    moreover have "debugData host h lv (context\<lparr>others := AList.delete ''userId'' (others context)\<rparr>) data
        = debugData host h lv context data"
      using that(2) by (auto simp: debugData_def)
    ultimately show ?thesis
      by (simp add: formatLogMessage_line module_or_app_def)
  qed
  from set_eq bound tag falsy absent line same show ?thesis
    by blast
qed

theorem user_tag_by_truthiness_witness:
  "setUserId (initial_world None) 0 (Some []) = setUserId (initial_world None) 0 None
   \<and> map_of (others (context_of (setUserId (setUserId (initial_world None) 0 (Some ''u1'')) 0 (Some [])) 0))
        ''userId'' = Some JUndefined
   \<and> userPart example_host \<lparr>module = Some ''auth'', others = [(''userId'', JNum 42)]\<rparr> = user_tag ''42''
   \<and> userPart example_host \<lparr>module = Some ''auth'', others = [(''userId'', JStr [])]\<rparr> = []
   \<and> userPart example_host \<lparr>module = Some ''auth'', others = []\<rparr> = []
   \<and> (\<exists>payload. formatLogMessage example_host second_of_November [] Info
          \<lparr>module = Some ''auth'', others = [(''userId'', JStr ''u1'')]\<rparr> ''hello'' JUndefined
        = Normal (formatTime second_of_November @ '' '' @ levelStr Info
                    @ moduleColor example_host ''auth'' @ ''[auth]'' @ ESC # ''[0m''
                    @ user_tag ''u1'' @ '' hello'' @ payload))
   \<and> formatLogMessage example_host second_of_November [] Info
        \<lparr>module = Some ''auth'', others = [(''userId'', JStr [])]\<rparr> ''hello'' JUndefined
      = formatLogMessage example_host second_of_November [] Info
        \<lparr>module = Some ''auth'', others = []\<rparr> ''hello'' JUndefined"
proof -
  let ?w = "setUserId (initial_world None) 0 (Some ''u1'')"
  let ?c42 = "\<lparr>module = Some ''auth'', others = [(''userId'', JNum 42)]\<rparr>"
  let ?ce = "\<lparr>module = Some ''auth'', others = [(''userId'', JStr [])]\<rparr>"
  let ?c0 = "\<lparr>module = Some ''auth'', others = []\<rparr>"
  let ?cu = "\<lparr>module = Some ''auth'', others = [(''userId'', JStr ''u1'')]\<rparr>"
  have len: "0 < length (loggers ?w)"
    by (simp add: setUserId_def initial_world_def new_Logger_def)
  have t42: "ToString example_host (JNum 42) = ''42''"
    by code_simp
  have a: "setUserId (initial_world None) 0 (Some []) = setUserId (initial_world None) 0 None"
    using user_tag_by_truthiness [of "initial_world None" 0] by blast
  have b: "map_of (others (context_of (setUserId ?w 0 (Some [])) 0)) ''userId'' = Some JUndefined"
    using user_tag_by_truthiness [of ?w 0] len by blast
  have c: "userPart example_host ?c42 = user_tag ''42''"
    using user_tag_by_truthiness [of _ _ ?c42 "JNum 42" example_host] t42 by simp
  have d: "userPart example_host ?ce = []"
    using user_tag_by_truthiness [of _ _ ?ce "JStr []" example_host] by simp
  have e: "userPart example_host ?c0 = []"
    using user_tag_by_truthiness [of _ _ ?c0 _ example_host] by simp
  obtain line where line: "formatLogMessage example_host second_of_November [] Info ?cu ''hello'' JUndefined
      = Normal line"
  proof -
    have "plain_heap []" by (simp add: plain_heap_def)
    from formatLogMessage_plain [OF this, of example_host second_of_November Info ?cu "''hello''" JUndefined]
    show ?thesis using that by blast
  qed
  have tu: "userPart example_host ?cu = user_tag ''u1''"
    using user_tag_by_truthiness [of _ _ ?cu "JStr ''u1''" example_host] by (simp add: ToString_def)
  have m: "module_or_app ?cu = ''auth''"
    by (simp add: module_or_app_def)
  from user_tag_by_truthiness [of _ _ ?cu _ example_host second_of_November "[]" Info "''hello''" JUndefined]
    line
  have f: "\<exists>payload. line = formatTime second_of_November @ '' '' @ levelStr Info
                    @ moduleColor example_host ''auth'' @ ''[auth]'' @ ESC # ''[0m''
                    @ user_tag ''u1'' @ '' hello'' @ payload"
    unfolding tu m by (metis append_Cons append_Nil)
  have del: "?ce\<lparr>others := AList.delete ''userId'' (others ?ce)\<rparr> = ?c0"
    by (simp add: AList.delete_eq)
  have g: "formatLogMessage example_host second_of_November [] Info ?ce ''hello'' JUndefined
      = formatLogMessage example_host second_of_November [] Info ?c0 ''hello'' JUndefined"
    using user_tag_by_truthiness [of _ _ ?ce _ example_host second_of_November "[]" _ "''hello''" JUndefined]
    unfolding del by simp
  from a b c d e f g line show ?thesis
    by simp
qed

section \<open>The payload of the error level\<close>















section \<open>The clock\<close>

text \<open>
  C8 as stated fails: the same level, context, message and data rendered at two
  readings of the clock give two different lines.
\<close>

theorem render_depends_on_clock:
  "formatLogMessage example_host second_of_November
      [] Info \<lparr>module = Some ''app'', others = []\<rparr> ''hello'' JUndefined
   \<noteq> formatLogMessage example_host (second_of_November\<lparr>getMilliseconds := 43\<rparr>)
      [] Info \<lparr>module = Some ''app'', others = []\<rparr> ''hello'' JUndefined"
  by code_simp

text \<open>
  C8, amended.  Rendering touches neither the loggers nor the console, and what it
  gives is determined by its arguments and the reading of the clock: on plain data it
  returns a line, which is the timestamp of the clock reading followed by a text that
  the level, the context, the message and the data determine; with any data it
  returns such a line or throws what the data make it throw, whatever the clock reads.
\<close>

theorem render_is_timestamp_and_pure_rest:
  "(plain_heap h \<longrightarrow>
      (\<exists>rest. \<forall>now. formatLogMessage host now h level context message data
                       = Normal (formatTime now @ rest)))
   \<and> (\<exists>c. c \<noteq> OutOfFuel
          \<and> (\<forall>now. formatLogMessage host now h level context message data
                      = map_completion (\<lambda>rest. formatTime now @ rest) c))"
proof -
  let ?tail = "\<lambda>payload. '' '' @ levelStr level @ moduleColor host (module_or_app context)
               @ ''['' @ module_or_app context @ '']'' @ ESC # ''[0m'' @ userPart host context
               @ '' '' @ message @ payload"
  let ?c = "map_completion ?tail (debugData host h level context data)"
  have shape: "formatLogMessage host now h level context message data
                 = map_completion (\<lambda>rest. formatTime now @ rest) ?c" for now
    by (cases "debugData host h level context data")
       (simp_all add: formatLogMessage_line map_completion_def)
  have returns: "?c \<noteq> OutOfFuel"
    using debugData_returns [of host h level "context" data]
    by (auto simp: map_completion_def split: completion.splits)
  have "\<exists>rest. \<forall>now. formatLogMessage host now h level context message data
                       = Normal (formatTime now @ rest)" if pl: "plain_heap h"
  proof -
    obtain d where "debugData host h level context data = Normal d"
      using debugData_plain [OF pl] by blast
    then show ?thesis
      by (simp add: formatLogMessage_line map_completion_def)
  qed
  with shape returns show ?thesis
    by blast
qed

theorem render_is_timestamp_and_pure_rest_witness:
  "plain_heap []
   \<and> (\<exists>rest. \<forall>now. formatLogMessage example_host now [] Info
                       \<lparr>module = Some ''app'', others = []\<rparr> ''hello'' JUndefined
                     = Normal (formatTime now @ rest))"
proof -
  have p: "plain_heap []"
    by (simp add: plain_heap_def)
  from render_is_timestamp_and_pure_rest [of "[]" example_host Info
      "\<lparr>module = Some ''app'', others = []\<rparr>" "''hello''" JUndefined] p
  show ?thesis
    by blast
qed

lemma digit_char_0: "digit_char 0 = CHR ''0''"
  by code_simp

lemma padStart_two: "n < 100 \<Longrightarrow> padStart 2 (CHR ''0'') (nat_toString n) = two_digits n"
proof (cases "n < 10")
  case True
  then show ?thesis
    by (simp add: padStart_def two_digits_def nat_toString.simps [of n] digit_char_0)
next
  case False
  assume "n < 100"
  with False have "n div 10 < 10" by simp
  with False show ?thesis
    by (simp add: padStart_def two_digits_def nat_toString.simps [of n]
        nat_toString.simps [of "n div 10"])
qed

lemma padStart_three: "n < 1000 \<Longrightarrow> padStart 3 (CHR ''0'') (nat_toString n) = three_digits n"
proof -
  assume n: "n < 1000"
  consider "n < 10" | "10 \<le> n" "n < 100" | "100 \<le> n" by linarith
  then show ?thesis
  proof cases
    case 1
    then show ?thesis
      by (simp add: padStart_def three_digits_def nat_toString.simps [of n] digit_char_0
          numeral_2_eq_2)
  next
    case 2
    then have "n div 10 < 10" and "n div 100 = 0" by simp_all
    with 2 show ?thesis
      by (simp add: padStart_def three_digits_def nat_toString.simps [of n]
          nat_toString.simps [of "n div 10"] digit_char_0)
  next
    case 3
    with n have a: "\<not> n div 10 < 10" and b: "n div 10 div 10 < 10" and c: "n div 100 = n div 10 div 10"
      by (simp_all add: div_mult2_eq [symmetric])
    from 3 a b c show ?thesis
      by (simp add: padStart_def three_digits_def nat_toString.simps [of n]
          nat_toString.simps [of "n div 10"] nat_toString.simps [of "n div 10 div 10"])
  qed
qed

lemma formatTime_month_day:
  "valid_Date now \<Longrightarrow> formatTime now = ESC # ''[2m'' @ timestamp_month_day now @ ESC # ''[0m''"
  by (simp add: valid_Date_def formatTime_def timestamp_month_day_def time_of_day_def
      padStart_two padStart_three)

text \<open>
  C9 as stated fails: on the second of November the line has the timestamp
  \<open>[11/02 09:05:07.042]\<close>, and the timestamp with the day first, \<open>[02/11 09:05:07.042]\<close>,
  is nowhere in it.
\<close>

theorem timestamp_is_not_day_first:
  "timestamp_day_month second_of_November = ''[02/11 09:05:07.042]''
   \<and> (case formatLogMessage example_host second_of_November
          [] Info \<lparr>module = Some ''app'', others = []\<rparr> ''hello'' JUndefined of
         Normal line \<Rightarrow> sublist ''[11/02 09:05:07.042]'' line \<and> \<not> sublist ''[02/11 09:05:07.042]'' line
       | Throw e \<Rightarrow> False
       | OutOfFuel \<Rightarrow> False)"
  by code_simp

text \<open>
  C9, amended.  Every rendered line starts, after the marker for dim text, with a
  bracketed timestamp of the fixed form \<open>[MM/DD HH:MM:SS.mmm]\<close>: the first two-digit
  field is the month, the second the day of the month, then the hour, the minute and
  the second with two digits each and the millisecond with three.  On plain data a
  line is rendered.
\<close>

theorem timestamp_is_month_first:
  assumes "valid_Date now"
  shows "(plain_heap h \<longrightarrow>
            (\<exists>rest. formatLogMessage host now h level context message data
                      = Normal (ESC # ''[2m'' @ timestamp_month_day now @ rest)
                   \<and> sublist (timestamp_month_day now) (ESC # ''[2m'' @ timestamp_month_day now @ rest)))
       \<and> (\<forall>line. formatLogMessage host now h level context message data = Normal line \<longrightarrow>
            (\<exists>rest. line = ESC # ''[2m'' @ timestamp_month_day now @ rest)
            \<and> sublist (timestamp_month_day now) line)"
proof -
  have form: "(\<exists>rest. line = ESC # ''[2m'' @ timestamp_month_day now @ rest)
            \<and> sublist (timestamp_month_day now) line"
    if "formatLogMessage host now h level context message data = Normal line" for line
  proof -
    from that have "\<exists>rest. line = ESC # ''[2m'' @ timestamp_month_day now @ rest"
      using formatTime_month_day [OF assms]
      by (auto simp: formatLogMessage_line map_completion_def split: completion.splits)
    moreover have "sublist (timestamp_month_day now) (ESC # ''[2m'' @ timestamp_month_day now @ rest)" for rest
      by (metis append_Cons sublist_appendI)
    ultimately show ?thesis by blast
  qed
  have "\<exists>rest. formatLogMessage host now h level context message data
                      = Normal (ESC # ''[2m'' @ timestamp_month_day now @ rest)
                   \<and> sublist (timestamp_month_day now) (ESC # ''[2m'' @ timestamp_month_day now @ rest)"
    if pl: "plain_heap h"
  proof -
    obtain line where line: "formatLogMessage host now h level context message data = Normal line"
      using formatLogMessage_plain [OF pl] by blast
    with form [OF line] show ?thesis
      by auto
  qed
  with form show ?thesis
    by blast
qed

theorem timestamp_is_month_first_witness:
  "valid_Date second_of_November
   \<and> plain_heap []
   \<and> timestamp_month_day second_of_November = ''[11/02 09:05:07.042]''
   \<and> (\<exists>rest. formatLogMessage example_host second_of_November
          [] Info \<lparr>module = Some ''app'', others = []\<rparr> ''hello'' JUndefined
        = Normal (ESC # ''[2m'' @ ''[11/02 09:05:07.042]'' @ rest))"
proof -
  have v: "valid_Date second_of_November"
    by (simp add: valid_Date_def)
  have p: "plain_heap []"
    by (simp add: plain_heap_def)
  have t: "timestamp_month_day second_of_November = ''[11/02 09:05:07.042]''"
    by code_simp
  from timestamp_is_month_first [OF v, of "[]" example_host Info
      "\<lparr>module = Some ''app'', others = []\<rparr>" "''hello''" JUndefined] p
  show ?thesis
    unfolding t using v by blast
qed

end
